theory Spec2Isabelle
  imports Complex_Main
begin

section \<open>Python strings\<close>

text \<open>
  A Python string is modelled as a \<^typ>\<open>string\<close>: a list of characters whose code
  points lie below 256. Numbers read from the layout (coordinates and font sizes)
  are Python floats; they are modelled as \<^typ>\<open>real\<close>, so every comparison of the
  source is the exact comparison of the values compared.
\<close>

definition isspace :: "char \<Rightarrow> bool" where
  \<comment> \<open>\<^verbatim>\<open>str.isspace\<close> below code point 256; \<^verbatim>\<open>\s\<close> of \<^verbatim>\<open>re\<close> is the same set.\<close>
  "isspace c =
     (let n = (of_char c :: nat)
      in (9 \<le> n \<and> n \<le> 13) \<or> (28 \<le> n \<and> n \<le> 32) \<or> n = 133 \<or> n = 160)"

definition strip :: "string \<Rightarrow> string" where
  "strip s = rev (dropWhile isspace (rev (dropWhile isspace s)))"

definition empty_str :: "string \<Rightarrow> bool" where
  "empty_str s = (length (strip s) = 0)"

fun split_on :: "char \<Rightarrow> string \<Rightarrow> string list" where
  \<comment> \<open>\<^verbatim>\<open>s.split(sep)\<close> for a separator of one character.\<close>
  "split_on sep [] = [[]]"
| "split_on sep (c # cs) =
     (if c = sep then [] # split_on sep cs
      else (case split_on sep cs of
              [] \<Rightarrow> [[c]]
            | w # ws \<Rightarrow> (c # w) # ws))"

fun join :: "char \<Rightarrow> string list \<Rightarrow> string" where
  \<comment> \<open>\<^verbatim>\<open>sep.join(ws)\<close> for a separator of one character.\<close>
  "join sep [] = []"
| "join sep [w] = w"
| "join sep (w # ws) = w @ sep # join sep ws"

definition ascii_lowercase :: string where
  "ascii_lowercase = ''abcdefghijklmnopqrstuvwxyz''"

definition ascii_uppercase :: string where
  "ascii_uppercase = ''ABCDEFGHIJKLMNOPQRSTUVWXYZ''"

definition ascii_letters :: string where
  "ascii_letters = ascii_lowercase @ ascii_uppercase"

definition digits :: string where
  "digits = ''0123456789''"

section \<open>Constants\<close>

definition MIN_CHARS :: nat where
  "MIN_CHARS = 6"

definition MAX_WORDS :: nat where
  "MAX_WORDS = 20"

definition MAX_CHARS :: nat where
  "MAX_CHARS = MAX_WORDS * 10"

definition TOLERANCE :: real where
  "TOLERANCE = 1 / 1000000"

section \<open>The sanitizer\<close>

definition unidecode :: "(char \<Rightarrow> string) \<Rightarrow> string \<Rightarrow> string" where
  \<comment> \<open>The transliteration library is not part of the repository. It works character by
     character: an ASCII character stays, any other is replaced by the entry of the
     library's table, which is the parameter \<open>tbl\<close>.\<close>
  "unidecode tbl s = concat (map (\<lambda>c. if (of_char c :: nat) < 128 then [c] else tbl c) s)"

definition ascii_only_table :: "char \<Rightarrow> string" where
  \<comment> \<open>A table with no entry; \<^const>\<open>unidecode\<close> never consults the table on ASCII text.\<close>
  "ascii_only_table c = []"

definition sub_comma :: "string \<Rightarrow> string" where
  \<comment> \<open>\<^verbatim>\<open>re.sub(r',', ' ', s)\<close>\<close>
  "sub_comma s = map (\<lambda>c. if c = CHR '','' then CHR '' '' else c) s"

fun sub_colon_space :: "string \<Rightarrow> string" where
  \<comment> \<open>\<^verbatim>\<open>re.sub(r': ', ' - ', s)\<close>: matches are found from the left and do not overlap.\<close>
  "sub_colon_space [] = []"
| "sub_colon_space [c] = [c]"
| "sub_colon_space (c # d # cs) =
     (if c = CHR '':'' \<and> d = CHR '' '' then '' - '' @ sub_colon_space cs
      else c # sub_colon_space (d # cs))"

fun drop_pdf_rev :: "string \<Rightarrow> string" where
  \<comment> \<open>On a reversed string: drops every leading \<^verbatim>\<open>fdp.\<close>, that is every trailing
     \<^verbatim>\<open>.pdf\<close> of the string itself.\<close>
  "drop_pdf_rev (a # b # c # d # rest) =
     (if a = CHR ''f'' \<and> b = CHR ''d'' \<and> c = CHR ''p'' \<and> d = CHR ''.''
      then drop_pdf_rev rest else a # b # c # d # rest)"
| "drop_pdf_rev s = s"

definition sub_pdf_suffix :: "string \<Rightarrow> string" where
  \<comment> \<open>\<^verbatim>\<open>re.sub(r'\.pdf(\.pdf)*$', '', s)\<close>. The leftmost match is the longest run of
     \<^verbatim>\<open>.pdf\<close> that ends the string; \<^verbatim>\<open>$\<close> also matches just before a newline that
     is the last character, and that newline stays.\<close>
  "sub_pdf_suffix s =
     (if s \<noteq> [] \<and> last s = CHR 0x0A
      then rev (drop_pdf_rev (rev (butlast s))) @ [CHR 0x0A]
      else rev (drop_pdf_rev (rev s)))"

definition blank :: "char \<Rightarrow> bool" where
  \<comment> \<open>The class \<^verbatim>\<open>[ \t]\<close>.\<close>
  "blank c = (c = CHR '' '' \<or> c = CHR 0x09)"

fun sub_blank_runs :: "string \<Rightarrow> string" where
  \<comment> \<open>\<^verbatim>\<open>re.sub(r'[ \t][ \t]*', ' ', s)\<close>: every maximal run of spaces and tabs becomes
     one space. A blank followed by a blank is dropped; the last blank of a run becomes
     the space.\<close>
  "sub_blank_runs [] = []"
| "sub_blank_runs [c] = [if blank c then CHR '' '' else c]"
| "sub_blank_runs (c # d # cs) =
     (if blank c \<and> blank d then sub_blank_runs (d # cs)
      else (if blank c then CHR '' '' else c) # sub_blank_runs (d # cs))"

definition valid_chars :: string where
  "valid_chars = ''-_.() '' @ ascii_letters @ digits"

definition sanitize :: "(char \<Rightarrow> string) \<Rightarrow> string \<Rightarrow> string" where
  \<comment> \<open>The handler of \<^verbatim>\<open>UnicodeDecodeError\<close> is never entered: the text decoded is the
     text just encoded.\<close>
  "sanitize tbl filename =
     (let words = split_on (CHR '' '') filename;
          f1 = join (CHR '' '') (take MAX_WORDS words);
          f2 = (if length f1 > MAX_CHARS then take MAX_CHARS f1 else f1);
          f3 = unidecode tbl f2;
          f4 = sub_comma f3;
          f5 = sub_colon_space f4;
          f6 = sub_pdf_suffix f5;
          f7 = sub_blank_runs f6
      in filter (\<lambda>c. c \<in> set valid_chars) f7)"

fun words_acc :: "string \<Rightarrow> string \<Rightarrow> string list" where
  \<comment> \<open>The first argument is the word read so far.\<close>
  "words_acc w [] = (if w = [] then [] else [w])"
| "words_acc w (c # cs) =
     (if isspace c then (if w = [] then words_acc [] cs else w # words_acc [] cs)
      else words_acc (w @ [c]) cs)"

definition split_ws :: "string \<Rightarrow> string list" where
  \<comment> \<open>\<^verbatim>\<open>s.split()\<close>: the words that whitespace delimits, as the script takes them from
     a title before it sanitizes it.\<close>
  "split_ws s = words_acc [] s"

definition plain_ascii :: "string \<Rightarrow> bool" where
  \<comment> \<open>ASCII text without comma, colon and tab: text that the transliteration and the
     substitutions of \<^const>\<open>sanitize\<close> cannot lengthen or break into more words.\<close>
  "plain_ascii s =
     list_all (\<lambda>c. (of_char c :: nat) < 128 \<and> c \<noteq> CHR '','' \<and> c \<noteq> CHR '':'' \<and> c \<noteq> CHR 0x09) s"

fun double_space :: "string \<Rightarrow> bool" where
  \<comment> \<open>Two spaces in a row somewhere in the string.\<close>
  "double_space (c # d # cs) = ((c = CHR '' '' \<and> d = CHR '' '') \<or> double_space (d # cs))"
| "double_space cs = False"

definition ends_with_pdf :: "string \<Rightarrow> bool" where
  "ends_with_pdf s = (take 4 (rev s) = ''fdp.'')"

section \<open>The largest-text tracker\<close>

record largest_text =
  contents :: string
  y0 :: real
  fsize :: real

definition initial_largest_text :: largest_text where
  \<comment> \<open>The dictionary \<^verbatim>\<open>pdf_text\<close> starts from; \<open>fsize\<close> is its key \<^verbatim>\<open>'size'\<close>.\<close>
  "initial_largest_text = \<lparr>contents = [], y0 = 0, fsize = 0\<rparr>"

definition is_close :: "real \<Rightarrow> real \<Rightarrow> bool" where
  "is_close a b = (\<bar>a - b\<bar> \<le> TOLERANCE * max \<bar>a\<bar> \<bar>b\<bar>)"

definition sub_final_newline :: "string \<Rightarrow> string" where
  \<comment> \<open>\<^verbatim>\<open>re.sub(r'\n$', ' ', line)\<close>: \<^verbatim>\<open>$\<close> matches at the end and just before a newline
     that is the last character, so of two final newlines both are replaced.\<close>
  "sub_final_newline line =
     (if 2 \<le> length line \<and> last line = CHR 0x0A \<and> last (butlast line) = CHR 0x0A
      then butlast (butlast line) @ ''  ''
      else if line \<noteq> [] \<and> last line = CHR 0x0A then butlast line @ '' ''
      else line)"

definition update_largest_text ::
  "string \<Rightarrow> real \<Rightarrow> real \<Rightarrow> largest_text \<Rightarrow> largest_text" where
  "update_largest_text line y size0 lt =
     (if (size0 = fsize lt \<and> fsize lt = 0) \<and> y - y0 lt < - TOLERANCE then lt
      else
        (let line' = sub_final_newline line
         in if size0 - fsize lt > TOLERANCE
            then \<lparr>contents = line', y0 = y, fsize = size0\<rparr>
            else if is_close size0 (fsize lt)
            then lt\<lparr>contents := contents lt @ line', y0 := y\<rparr>
            else lt))"

fun scan :: "(string \<times> real \<times> real) list \<Rightarrow> largest_text \<Rightarrow> largest_text" where
  \<comment> \<open>A sequence of calls of \<^const>\<open>update_largest_text\<close>, each on the state the call
     before returned.\<close>
  "scan [] lt = lt"
| "scan ((line, y, size0) # us) lt = scan us (update_largest_text line y size0 lt)"

section \<open>The figure reconstructor\<close>

datatype parsing_state = INIT_X | INIT_D | INSIDE_WORD

record ltchar =
  x0 :: real
  x1 :: real
  char_y0 :: real
  char_size :: real
  char_text :: string

datatype lt_item = LTChar ltchar | LTAnno
  \<comment> \<open>What a figure or a text line holds: a glyph, or anything that is not an
     \<^verbatim>\<open>LTChar\<close>.\<close>

record figure_state =
  fig_largest_text :: largest_text
  fig_text :: string
  fig_line :: string
  fig_y0 :: real
  fig_size :: real
  char_distance :: real
  char_previous_x1 :: real
  state :: parsing_state

definition initial_figure_state :: "largest_text \<Rightarrow> figure_state" where
  "initial_figure_state lt =
     \<lparr>fig_largest_text = lt, fig_text = [], fig_line = [], fig_y0 = 0, fig_size = 0,
      char_distance = 0, char_previous_x1 = 0, state = INIT_X\<rparr>"

definition figure_step :: "figure_state \<Rightarrow> lt_item \<Rightarrow> figure_state" where
  \<comment> \<open>The body of the loop over the children of the figure.\<close>
  "figure_step f child =
     (case child of
        LTAnno \<Rightarrow> f
      | LTChar ch \<Rightarrow>
          if char_size ch \<noteq> fig_size f
          then f\<lparr>fig_largest_text :=
                     update_largest_text (fig_line f) (fig_y0 f) (fig_size f) (fig_largest_text f),
                  fig_text := fig_text f @ fig_line f @ [CHR 0x0A],
                  fig_line := char_text ch,
                  fig_y0 := char_y0 ch,
                  fig_size := char_size ch,
                  char_previous_x1 := x1 ch,
                  state := INIT_D\<rparr>
          else
            (let char_current_distance = \<bar>x0 ch - char_previous_x1 f\<bar>;
                 f1 = (if state f = INIT_X
                       then f\<lparr>char_previous_x1 := x1 ch, state := INIT_D\<rparr>
                       else if state f = INIT_D
                       then (let d1 = (if char_distance f > 0
                                          \<and> char_current_distance < char_distance f * 2.5
                                       then char_current_distance else char_distance f);
                                 d2 = (if d1 < 0.1 then 0.1 else d1)
                             in f\<lparr>char_distance := d2, state := INSIDE_WORD\<rparr>)
                       else f);
                 f2 = (if state f1 = INSIDE_WORD \<and> x1 ch < char_previous_x1 f1
                       then f1\<lparr>fig_line := fig_line f1 @ '' '',
                               char_previous_x1 := x1 ch, state := INIT_D\<rparr>
                       else if state f1 = INSIDE_WORD
                               \<and> char_current_distance > char_distance f1 * 8.5
                       then f1\<lparr>fig_line := fig_line f1 @ '' '', char_previous_x1 := x1 ch\<rparr>
                       else if state f1 = INSIDE_WORD
                               \<and> char_current_distance > char_distance f1
                               \<and> char_current_distance < char_distance f1 * 2.5
                       then f1\<lparr>char_distance := char_current_distance,
                               char_previous_x1 := x1 ch\<rparr>
                       else f1\<lparr>char_previous_x1 := x1 ch\<rparr>)
             in if \<not> empty_str (char_text ch)
                then f2\<lparr>fig_line := fig_line f2 @ char_text ch\<rparr> else f2))"

definition figure_loop :: "lt_item list \<Rightarrow> largest_text \<Rightarrow> figure_state" where
  \<comment> \<open>The local variables of \<^verbatim>\<open>extract_figure_text\<close> when its loop ends.\<close>
  "figure_loop lt_obj lt = foldl figure_step (initial_figure_state lt) lt_obj"

definition extract_figure_text :: "lt_item list \<Rightarrow> largest_text \<Rightarrow> largest_text \<times> string" where
  "extract_figure_text lt_obj lt =
     (let f = figure_loop lt_obj lt in (fig_largest_text f, fig_text f))"

section \<open>The grouped-text extractor and the page scan\<close>

datatype lt_child = LTTextLine string "lt_item list" | Item lt_item
  \<comment> \<open>A child of a text block: a line, with the text \<^verbatim>\<open>get_text()\<close> gives and its
     children, or a glyph or other item.\<close>

fun line_loop :: "nat \<Rightarrow> string \<Rightarrow> lt_item list \<Rightarrow> largest_text \<Rightarrow> largest_text" where
  \<comment> \<open>The inner loop over a line, at index \<open>j\<close>; it ends at the first glyph it samples.\<close>
  "line_loop j line_text [] lt = lt"
| "line_loop j line_text (LTChar ch # rest) lt =
     (if j > 1 then update_largest_text line_text (char_y0 ch) (char_size ch) lt
      else line_loop (j + 1) line_text rest lt)"
| "line_loop j line_text (LTAnno # rest) lt = line_loop (j + 1) line_text rest lt"

fun obj_loop :: "nat \<Rightarrow> string \<Rightarrow> lt_child list \<Rightarrow> largest_text \<Rightarrow> largest_text" where
  \<comment> \<open>The outer loop over a text block, at index \<open>i\<close>.\<close>
  "obj_loop i obj_text [] lt = lt"
| "obj_loop i obj_text (LTTextLine line_text items # rest) lt =
     obj_loop (i + 1) obj_text rest (line_loop 0 line_text items lt)"
| "obj_loop i obj_text (Item (LTChar ch) # rest) lt =
     (if i > 1 then update_largest_text obj_text (char_y0 ch) (char_size ch) lt
      else obj_loop (i + 1) obj_text rest lt)"
| "obj_loop i obj_text (Item LTAnno # rest) lt = obj_loop (i + 1) obj_text rest lt"

definition extract_largest_text :: "string \<Rightarrow> lt_child list \<Rightarrow> largest_text \<Rightarrow> largest_text" where
  \<comment> \<open>The object is given by its text and its children.\<close>
  "extract_largest_text obj_text children lt = obj_loop 0 obj_text children lt"

datatype lt_obj = LTFigure "lt_item list" | LTTextBox string "lt_child list" | LTOther
  \<comment> \<open>A layout object of a page: a figure, a text box or text line (with its text and
     children), or anything else.\<close>

definition stripped_to_chars :: "string \<Rightarrow> string" where
  \<comment> \<open>\<^verbatim>\<open>re.sub(r'[ \t\n]', '', s.strip())\<close>\<close>
  "stripped_to_chars s =
     filter (\<lambda>c. c \<noteq> CHR '' '' \<and> c \<noteq> CHR 0x09 \<and> c \<noteq> CHR 0x0A) (strip s)"

definition page_step :: "largest_text \<times> string \<Rightarrow> lt_obj \<Rightarrow> largest_text \<times> string" where
  \<comment> \<open>The body of the loop over the layout objects of a page, on the pair of
     \<^verbatim>\<open>largest_text\<close> and \<^verbatim>\<open>text\<close>.\<close>
  "page_step st obj =
     (case st of (lt, text) \<Rightarrow>
        (case obj of
           LTFigure items \<Rightarrow>
             (case extract_figure_text items lt of
                (lt', figure_text) \<Rightarrow> (lt', text @ figure_text))
         | LTTextBox obj_text children \<Rightarrow>
             if length (stripped_to_chars obj_text) > MAX_CHARS * 2 then (lt, text)
             else (extract_largest_text obj_text children lt, text @ obj_text @ [CHR 0x0A])
         | LTOther \<Rightarrow> (lt, text)))"

definition digit_blank_dash :: "char \<Rightarrow> bool" where
  \<comment> \<open>The class \<^verbatim>\<open>[0-9 \t-]\<close>.\<close>
  "digit_blank_dash c = (c \<in> set digits \<or> c = CHR '' '' \<or> c = CHR 0x09 \<or> c = CHR ''-'')"

definition cid_token :: "string \<Rightarrow> nat" where
  \<comment> \<open>The length of the match of \<^verbatim>\<open>\(cid:[0-9 \t-]*\)\<close> at the start of the string, 0
     when there is none.\<close>
  "cid_token s =
     (if take 5 s = ''(cid:''
      then (let rest = dropWhile digit_blank_dash (drop 5 s)
            in if rest \<noteq> [] \<and> hd rest = CHR '')''
               then 5 + length (takeWhile digit_blank_dash (drop 5 s)) + 1 else 0)
      else 0)"

fun sub_cid_skip :: "nat \<Rightarrow> string \<Rightarrow> string" where
  \<comment> \<open>\<^verbatim>\<open>re.sub(r'(\(cid:[0-9 \t-]*\))*', '', s)\<close>: every token is removed. The first
     argument counts the characters of a token found that are still to be skipped.\<close>
  "sub_cid_skip k [] = []"
| "sub_cid_skip k (c # cs) =
     (if k > 0 then sub_cid_skip (k - 1) cs
      else (let n = cid_token (c # cs)
            in if n > 0 then sub_cid_skip (n - 1) cs else c # sub_cid_skip 0 cs))"

definition sub_cid :: "string \<Rightarrow> string" where
  "sub_cid s = sub_cid_skip 0 s"

definition pdf_text :: "lt_obj list list \<Rightarrow> (largest_text \<times> string) option" where
  \<comment> \<open>On the pages the layout provider yields. The function returns inside the loop, on
     the first page; with no page it returns \<^verbatim>\<open>None\<close>.\<close>
  "pdf_text pages =
     (case pages of
        [] \<Rightarrow> None
      | layout # _ \<Rightarrow>
          (case foldl page_step (initial_largest_text, []) layout of
             (lt, text) \<Rightarrow> Some (lt\<lparr>contents := sub_cid (contents lt)\<rparr>, text)))"

section \<open>Regular expressions\<close>

text \<open>
  The patterns of \<^verbatim>\<open>junk_line\<close> are only asked whether they match somewhere, so a
  pattern is modelled by the language it denotes, decided by derivatives.
\<close>

datatype rx = Zero | One | Atom "char \<Rightarrow> bool" | Alt rx rx | Seq rx rx | Star rx

fun nullable :: "rx \<Rightarrow> bool" where
  "nullable Zero = False"
| "nullable One = True"
| "nullable (Atom p) = False"
| "nullable (Alt r s) = (nullable r \<or> nullable s)"
| "nullable (Seq r s) = (nullable r \<and> nullable s)"
| "nullable (Star r) = True"

fun deriv :: "char \<Rightarrow> rx \<Rightarrow> rx" where
  "deriv c Zero = Zero"
| "deriv c One = Zero"
| "deriv c (Atom p) = (if p c then One else Zero)"
| "deriv c (Alt r s) = Alt (deriv c r) (deriv c s)"
| "deriv c (Seq r s) =
     (if nullable r then Alt (Seq (deriv c r) s) (deriv c s) else Seq (deriv c r) s)"
| "deriv c (Star r) = Seq (deriv c r) (Star r)"

definition fullmatch :: "rx \<Rightarrow> string \<Rightarrow> bool" where
  "fullmatch r s = nullable (fold deriv s r)"

definition Chr :: "char \<Rightarrow> rx" where
  "Chr c = Atom (\<lambda>d. d = c)"

definition Lit :: "string \<Rightarrow> rx" where
  "Lit s = foldr (\<lambda>c r. Seq (Chr c) r) s One"

definition Plus :: "rx \<Rightarrow> rx" where
  "Plus r = Seq r (Star r)"

definition Opt :: "rx \<Rightarrow> rx" where
  "Opt r = Alt r One"

definition Alts :: "rx list \<Rightarrow> rx" where
  "Alts rs = foldr Alt rs Zero"

definition Space :: rx where
  \<comment> \<open>\<^verbatim>\<open>\s\<close>\<close>
  "Space = Atom isspace"

definition Dot :: rx where
  \<comment> \<open>\<^verbatim>\<open>.\<close>: any character but a newline.\<close>
  "Dot = Atom (\<lambda>c. c \<noteq> CHR 0x0A)"

definition search :: "rx \<Rightarrow> string \<Rightarrow> bool" where
  \<comment> \<open>\<^verbatim>\<open>bool(re.search(r, s))\<close> for a pattern without anchors: some substring matches.\<close>
  "search r s = fullmatch (Seq (Star (Atom (\<lambda>c. True))) (Seq r (Star (Atom (\<lambda>c. True))))) s"

definition search_anchored :: "rx \<Rightarrow> string \<Rightarrow> bool" where
  \<comment> \<open>\<^verbatim>\<open>bool(re.search('^r$', s))\<close>: the whole string matches, or the string without the
     newline that is its last character.\<close>
  "search_anchored r s =
     (fullmatch r s \<or> (s \<noteq> [] \<and> last s = CHR 0x0A \<and> fullmatch r (butlast s)))"

section \<open>The junk-line classifier\<close>

definition lower_char :: "char \<Rightarrow> char" where
  \<comment> \<open>\<^verbatim>\<open>str.lower\<close> below code point 256.\<close>
  "lower_char c =
     (let n = (of_char c :: nat)
      in if (65 \<le> n \<and> n \<le> 90) \<or> (192 \<le> n \<and> n \<le> 222 \<and> n \<noteq> 215)
         then char_of (n + 32) else c)"

definition lower :: "string \<Rightarrow> string" where
  "lower s = map lower_char s"

definition placeholder_rx :: rx where
  \<comment> \<open>\<^verbatim>\<open>^[0-9 \t-]+(abstract|introduction)?\s+$|^(abstract|unknown|title|untitled):?$\<close>
     between its anchors.\<close>
  "placeholder_rx =
     Alt (Seq (Plus (Atom digit_blank_dash))
            (Seq (Opt (Alt (Lit ''abstract'') (Lit ''introduction''))) (Plus Space)))
         (Seq (Alts [Lit ''abstract'', Lit ''unknown'', Lit ''title'', Lit ''untitled''])
            (Opt (Chr (CHR '':''))))"

definition copyright_rx :: rx where
  "copyright_rx =
     Alts [Seq (Lit ''paper'') (Seq (Plus Space) (Lit ''title'')),
           Seq (Lit ''technical'') (Seq (Plus Space) (Lit ''report'')),
           Lit ''proceedings'',
           Lit ''preprint'',
           Seq (Lit ''to'') (Seq (Plus Space) (Lit ''appear'')),
           Lit ''submission'',
           Seq (Alt (Lit ''integrated'') (Lit ''international''))
             (Seq (Star Dot) (Lit ''conference'')),
           Seq (Lit ''transactions'') (Seq (Plus Space) (Lit ''on'')),
           Seq (Lit ''symposium'') (Seq (Plus Space) (Lit ''on'')),
           Seq (Lit ''downloaded'') (Seq (Plus Space)
             (Seq (Lit ''from'') (Seq (Plus Space) (Lit ''http''))))]"

definition junk_line :: "string \<Rightarrow> bool" where
  "junk_line line =
     (let too_small = (length (strip line) < MIN_CHARS);
          is_placeholder_text = search_anchored placeholder_rx (lower (strip line));
          is_copyright_info = search copyright_rx (lower line);
          ascii_length = length (filter (\<lambda>c. c \<in> set ascii_letters) (strip line));
          chars_length = length (stripped_to_chars line);
          is_serial_number = (real ascii_length < real chars_length / 2)
      in too_small \<or> is_placeholder_text \<or> is_copyright_info \<or> is_serial_number)"

section \<open>The line-window selector and the title strategies\<close>

datatype exn = TypeError | KeyError | FileNotFoundError | PDFSyntaxError

fun title_start_loop :: "nat \<Rightarrow> string list \<Rightarrow> nat" where
  "title_start_loop i [] = 0"
| "title_start_loop i (line # rest) =
     (if \<not> empty_str line \<and> \<not> junk_line line then i else title_start_loop (i + 1) rest)"

definition title_start :: "string list \<Rightarrow> nat" where
  "title_start lines = title_start_loop 0 lines"

fun title_end_loop :: "nat \<Rightarrow> nat \<Rightarrow> string list \<Rightarrow> nat" where
  "title_end_loop start i [] = start + 1"
| "title_end_loop start i (line # rest) =
     (if empty_str line then i else title_end_loop start (i + 1) rest)"

definition title_end :: "string list \<Rightarrow> nat \<Rightarrow> nat" where
  \<comment> \<open>With the default \<^verbatim>\<open>max_lines=2\<close>; the slice \<^verbatim>\<open>lines[start+1:start+max_lines+1]\<close>
     holds at most \<^verbatim>\<open>max_lines\<close> lines.\<close>
  "title_end lines start = title_end_loop start (start + 1) (take 2 (drop (start + 1) lines))"

definition line_window :: "string list \<Rightarrow> string" where
  \<comment> \<open>The lines \<^verbatim>\<open>lines[i:j]\<close>, each stripped, joined by spaces.\<close>
  "line_window lines =
     (let i = title_start lines; j = title_end lines i
      in join (CHR '' '') (map strip (take (j - i) (drop i lines))))"

definition sub_dot :: "string \<Rightarrow> string" where
  \<comment> \<open>\<^verbatim>\<open>re.sub(r'\.', '', text)\<close>\<close>
  "sub_dot text = filter (\<lambda>c. c \<noteq> CHR ''.'') text"

definition sub_tab_newline :: "string \<Rightarrow> string" where
  \<comment> \<open>\<^verbatim>\<open>re.sub(r'[\t\n]', '', text)\<close>\<close>
  "sub_tab_newline text = filter (\<lambda>c. c \<noteq> CHR 0x09 \<and> c \<noteq> CHR 0x0A) text"

definition text_title :: "exn + lt_obj list list \<Rightarrow> exn + string" where
  \<comment> \<open>The argument is what opening and laying out the file gives: an exception, or the
     pages. Unpacking the \<^verbatim>\<open>None\<close> of a document without pages raises.\<close>
  "text_title parsed =
     (case parsed of
        Inl e \<Rightarrow> Inl e
      | Inr pages \<Rightarrow>
          (case pdf_text pages of
             None \<Rightarrow> Inl TypeError
           | Some (lt, lines_joined) \<Rightarrow>
               (let text = (if empty_str (contents lt)
                            then line_window (split_on (CHR 0x0A) (strip lines_joined))
                            else strip (contents lt))
                in Inr (sub_tab_newline (sub_dot text)))))"

datatype pystr = Str string | Bytes string
  \<comment> \<open>What a pipe gives: text, or bytes (always bytes in Python 3 when the pipe is not
     opened in text mode).\<close>

definition split_newline :: "pystr \<Rightarrow> exn + string list" where
  \<comment> \<open>\<^verbatim>\<open>out.strip().split('\n')\<close>: splitting bytes by a \<^verbatim>\<open>str\<close> separator raises.\<close>
  "split_newline out =
     (case out of
        Str s \<Rightarrow> Inr (split_on (CHR 0x0A) (strip s))
      | Bytes b \<Rightarrow> Inl TypeError)"

definition pdftotext_title :: "pystr \<Rightarrow> exn + string" where
  \<comment> \<open>On the standard output of the tool.\<close>
  "pdftotext_title out =
     (case split_newline out of
        Inl e \<Rightarrow> Inl e
      | Inr lines \<Rightarrow> Inr (sub_tab_newline (sub_dot (line_window lines))))"

fun rfind :: "char \<Rightarrow> string \<Rightarrow> int" where
  \<comment> \<open>\<^verbatim>\<open>s.rfind(c)\<close>: the last index of \<open>c\<close>, or -1.\<close>
  "rfind c [] = - 1"
| "rfind c (x # xs) =
     (let r = rfind c xs in if r \<ge> 0 then r + 1 else if x = c then 0 else - 1)"

definition splitext :: "string \<Rightarrow> string \<times> string" where
  \<comment> \<open>\<^verbatim>\<open>os.path.splitext\<close> of the standard library, on POSIX paths: the extension starts
     at the last dot, when that dot comes after the last slash and after a character of
     the file name that is not a dot.\<close>
  "splitext p =
     (let sepIndex = rfind (CHR ''/'') p;
          dotIndex = rfind (CHR ''.'') p
      in if dotIndex > sepIndex
            \<and> list_ex (\<lambda>c. c \<noteq> CHR ''.'')
                (take (nat (dotIndex - (sepIndex + 1))) (drop (nat (sepIndex + 1)) p))
         then (take (nat dotIndex) p, drop (nat dotIndex) p)
         else (p, []))"

definition basename :: "string \<Rightarrow> string" where
  \<comment> \<open>\<^verbatim>\<open>os.path.basename\<close> on POSIX paths: what follows the last slash.\<close>
  "basename p = drop (nat (rfind (CHR ''/'') p + 1)) p"

definition valid_title :: "string \<Rightarrow> bool" where
  "valid_title title =
     (\<not> empty_str title \<and> \<not> junk_line title \<and> empty_str (snd (splitext title)))"

section \<open>The metadata strategy\<close>

type_synonym py_dict = "(string \<times> string) list"

definition dict_attributes :: "string list" where
  \<comment> \<open>The attributes of an object of class \<^verbatim>\<open>dict\<close>.\<close>
  "dict_attributes =
     [''__class__'', ''__class_getitem__'', ''__contains__'', ''__delattr__'',
      ''__delitem__'', ''__dir__'', ''__doc__'', ''__eq__'', ''__format__'', ''__ge__'',
      ''__getattribute__'', ''__getitem__'', ''__getstate__'', ''__gt__'', ''__hash__'',
      ''__init__'', ''__init_subclass__'', ''__ior__'', ''__iter__'', ''__le__'',
      ''__len__'', ''__lt__'', ''__ne__'', ''__new__'', ''__or__'', ''__reduce__'',
      ''__reduce_ex__'', ''__repr__'', ''__reversed__'', ''__ror__'', ''__setattr__'',
      ''__setitem__'', ''__sizeof__'', ''__str__'', ''__subclasshook__'', ''clear'',
      ''copy'', ''fromkeys'', ''get'', ''items'', ''keys'', ''pop'', ''popitem'',
      ''setdefault'', ''update'', ''values'']"

definition hasattr :: "py_dict \<Rightarrow> string \<Rightarrow> bool" where
  \<comment> \<open>\<^verbatim>\<open>hasattr(meta, name)\<close> asks for an attribute of the object; the keys of a
     dictionary are not attributes of it.\<close>
  "hasattr meta name = (name \<in> set dict_attributes)"

definition getitem :: "py_dict \<Rightarrow> string \<Rightarrow> exn + string" where
  \<comment> \<open>\<^verbatim>\<open>meta[key]\<close>\<close>
  "getitem meta key = (case map_of meta key of None \<Rightarrow> Inl KeyError | Some v \<Rightarrow> Inr v)"

fun meta_loop :: "py_dict list \<Rightarrow> exn + string" where
  "meta_loop [] = Inr []"
| "meta_loop (meta # rest) =
     (if hasattr meta ''title'' then getitem meta ''title''
      else if hasattr meta ''Title'' then getitem meta ''Title''
      else if hasattr meta ''TITLE'' then getitem meta ''TITLE''
      else meta_loop rest)"

definition meta_title :: "exn + py_dict list option \<Rightarrow> exn + string" where
  \<comment> \<open>The argument is what opening and parsing the file gives: an exception, or the
     document's \<^verbatim>\<open>info\<close>.\<close>
  "meta_title parsed =
     (case parsed of
        Inl e \<Rightarrow> Inl e
      | Inr None \<Rightarrow> Inr []
      | Inr (Some docinfo) \<Rightarrow> meta_loop docinfo)"

section \<open>The orchestrator\<close>

record file_view =
  docinfo :: "exn + py_dict list option"
  layout :: "exn + lt_obj list list"
  pdftotext_out :: pystr

text \<open>
  What the collaborators give for a file: the outcome of reading its metadata, the
  outcome of laying out its pages, and the standard output of the external tool.
\<close>

definition try_title :: "exn + string \<Rightarrow> string option" where
  \<comment> \<open>A \<^verbatim>\<open>try\<close> block of \<^verbatim>\<open>pdf_title\<close>: the title when the strategy returned one that
     is valid; an exception is caught and logged.\<close>
  "try_title r =
     (case r of Inl e \<Rightarrow> None | Inr title \<Rightarrow> if valid_title title then Some title else None)"

definition pdf_title :: "string \<Rightarrow> file_view \<Rightarrow> exn + string" where
  "pdf_title filename v =
     (case try_title (meta_title (docinfo v)) of
        Some title \<Rightarrow> Inr title
      | None \<Rightarrow>
          (case try_title (text_title (layout v)) of
             Some title \<Rightarrow> Inr title
           | None \<Rightarrow>
               (case pdftotext_title (pdftotext_out v) of
                  Inl e \<Rightarrow> Inl e
                | Inr title \<Rightarrow>
                    if valid_title title then Inr title
                    else Inr (basename (fst (splitext filename))))))"

section \<open>Properties of the sanitizer\<close>

lemma split_on_not_Nil: "split_on sep s \<noteq> []"
  by (induction s) (auto split: list.splits)

lemma join_split_on: "join sep (split_on sep s) = s"
proof (induction s)
  case Nil
  show ?case by simp
next
  case (Cons c cs)
  obtain w ws where sp: "split_on sep cs = w # ws"
    using split_on_not_Nil [of sep cs] by (cases "split_on sep cs") auto
  with Cons show ?case by (cases ws) auto
qed

lemma length_split_on: "length (split_on sep s) = Suc (length (filter (\<lambda>c. c = sep) s))"
proof (induction s)
  case Nil
  show ?case by simp
next
  case (Cons c cs)
  obtain w ws where sp: "split_on sep cs = w # ws"
    using split_on_not_Nil [of sep cs] by (cases "split_on sep cs") auto
  with Cons show ?case by auto
qed

lemma split_on_sep_free: "list_all (\<lambda>w. sep \<notin> set w) (split_on sep s)"
  by (induction s) (auto split: list.splits)

lemma join_chars:
  assumes "list_all (\<lambda>w. list_all P w) ws" and "P sep"
  shows "list_all P (join sep ws)"
  using assms by (induction sep ws rule: join.induct) auto

lemma join_count_sep:
  assumes "list_all (\<lambda>w. sep \<notin> set w) ws"
  shows "length (filter (\<lambda>c. c = sep) (join sep ws)) = length ws - 1"
  using assms
proof (induction sep ws rule: join.induct)
  case (1 sep)
  show ?case by simp
next
  case (2 sep w)
  then have "filter (\<lambda>c. c = sep) w = []" by (auto simp: filter_empty_conv)
  then show ?case by simp
next
  case (3 sep w v vs)
  then have "filter (\<lambda>c. c = sep) w = []" by (auto simp: filter_empty_conv)
  with 3 show ?case by simp
qed

lemma length_filter_take: "length (filter P (take k xs)) \<le> length (filter P xs)"
proof -
  have "filter P xs = filter P (take k xs) @ filter P (drop k xs)"
    by (metis append_take_drop_id filter_append)
  then show ?thesis by simp
qed

lemma length_filter_drop: "length (filter P (drop k xs)) \<le> length (filter P xs)"
proof -
  have "filter P xs = filter P (take k xs) @ filter P (drop k xs)"
    by (metis append_take_drop_id filter_append)
  then show ?thesis by simp
qed

lemma drop_pdf_rev_drop: "\<exists>k. drop_pdf_rev xs = drop k xs"
proof (induction xs rule: drop_pdf_rev.induct)
  case (1 a b c d rest)
  show ?case
  proof (cases "a = CHR ''f'' \<and> b = CHR ''d'' \<and> c = CHR ''p'' \<and> d = CHR ''.''")
    case True
    with 1 obtain k where "drop_pdf_rev rest = drop k rest" by blast
    with True have "drop_pdf_rev (a # b # c # d # rest)
        = drop (Suc (Suc (Suc (Suc k)))) (a # b # c # d # rest)"
      by simp
    then show ?thesis by blast
  next
    case False
    then have "drop_pdf_rev (a # b # c # d # rest) = drop 0 (a # b # c # d # rest)" by auto
    then show ?thesis by blast
  qed
qed (auto intro: exI [of _ 0])

lemma count_drop_pdf_rev: "length (filter P (drop_pdf_rev xs)) \<le> length (filter P xs)"
  using drop_pdf_rev_drop [of xs] by (auto simp: length_filter_drop)

lemma count_sub_pdf_suffix: "length (filter P (sub_pdf_suffix s)) \<le> length (filter P s)"
proof (cases "s \<noteq> [] \<and> last s = CHR 0x0A")
  case True
  then have s: "s = butlast s @ [CHR 0x0A]" by (metis append_butlast_last_id)
  have "length (filter P (rev (drop_pdf_rev (rev (butlast s)))))
          \<le> length (filter P (butlast s))"
    using count_drop_pdf_rev [of P "rev (butlast s)"] by (simp add: rev_filter [symmetric])
  then have "length (filter P (rev (drop_pdf_rev (rev (butlast s))) @ [CHR 0x0A]))
          \<le> length (filter P (butlast s @ [CHR 0x0A]))" by simp
  with True s show ?thesis by (simp add: sub_pdf_suffix_def)
next
  case False
  have "length (filter P (rev (drop_pdf_rev (rev s)))) \<le> length (filter P s)"
    using count_drop_pdf_rev [of P "rev s"] by (simp add: rev_filter [symmetric])
  with False show ?thesis by (auto simp: sub_pdf_suffix_def)
qed

lemma length_sub_pdf_suffix: "length (sub_pdf_suffix s) \<le> length s"
  using count_sub_pdf_suffix [of "\<lambda>c. True" s] by simp

lemma length_sub_blank_runs: "length (sub_blank_runs s) \<le> length s"
  by (induction s rule: sub_blank_runs.induct) auto

lemma spaces_sub_blank_runs:
  "length (filter (\<lambda>c. c = CHR '' '') (sub_blank_runs s)) \<le> length (filter blank s)"
  by (induction s rule: sub_blank_runs.induct) (auto simp: blank_def)

lemma length_words_acc: "length (words_acc w s) \<le> Suc (length (filter isspace s))"
proof (induction s arbitrary: w)
  case Nil
  show ?case by simp
next
  case (Cons c cs)
  have a: "length (words_acc [] cs) \<le> Suc (length (filter isspace cs))" by (rule Cons.IH)
  have b: "length (words_acc (w @ [c]) cs) \<le> Suc (length (filter isspace cs))"
    by (rule Cons.IH)
  from a b show ?case by auto
qed

lemma length_split_ws: "length (split_ws s) \<le> Suc (length (filter isspace s))"
  by (simp add: split_ws_def length_words_acc)

lemma sanitize_unfold:
  "sanitize tbl s =
     filter (\<lambda>c. c \<in> set valid_chars)
       (sub_blank_runs (sub_pdf_suffix (sub_colon_space (sub_comma (unidecode tbl
          (take MAX_CHARS (join (CHR '' '') (take MAX_WORDS (split_on (CHR '' '') s)))))))))"
  by (simp add: sanitize_def Let_def)

lemma unidecode_ascii:
  assumes "list_all (\<lambda>c. (of_char c :: nat) < 128) s"
  shows "unidecode tbl s = s"
  using assms by (induction s) (auto simp: unidecode_def)

lemma sub_comma_id:
  assumes "CHR '','' \<notin> set s"
  shows "sub_comma s = s"
  using assms by (auto simp: sub_comma_def intro: map_idI)

lemma sub_colon_space_id:
  assumes "CHR '':'' \<notin> set s"
  shows "sub_colon_space s = s"
  using assms by (induction s rule: sub_colon_space.induct) auto

lemma valid_chars_all:
  "list_all (\<lambda>c. isspace c = (c = CHR '' '') \<and> (of_char c :: nat) < 128 \<and> c \<noteq> CHR '',''
      \<and> c \<noteq> CHR '':'' \<and> c \<noteq> CHR 0x09 \<and> c \<noteq> CHR 0x0A) valid_chars"
  by code_simp

lemma valid_chars_isspace:
  assumes "c \<in> set valid_chars"
  shows "isspace c = (c = CHR '' '')"
  using assms valid_chars_all by (simp add: list_all_iff)

lemma sanitize_valid_chars: "list_all (\<lambda>c. c \<in> set valid_chars) (sanitize tbl s)"
  by (simp add: sanitize_unfold list_all_iff)

lemma list_all_take: "list_all P xs \<Longrightarrow> list_all P (take k xs)"
  by (induction xs arbitrary: k) (auto simp: take_Cons')

lemma list_all_mono: "list_all P xs \<Longrightarrow> (\<And>x. P x \<Longrightarrow> Q x) \<Longrightarrow> list_all Q xs"
  by (induction xs) auto

lemma split_on_all:
  assumes "list_all P s"
  shows "list_all (\<lambda>w. list_all P w) (split_on sep s)"
  using assms
proof (induction s)
  case Nil
  show ?case by simp
next
  case (Cons c cs)
  then have ih: "list_all (list_all P) (split_on sep cs)" and c: "P c" by simp_all
  show ?case
  proof (cases "split_on sep cs")
    case Nil
    with c show ?thesis by simp
  next
    case (Cons w ws)
    with ih c show ?thesis by simp
  qed
qed

lemma filter_blank_no_tab:
  assumes "list_all (\<lambda>c. c \<noteq> CHR 0x09) s"
  shows "filter blank s = filter (\<lambda>c. c = CHR '' '') s"
  using assms by (induction s) (auto simp: blank_def)

lemma filter_isspace_valid:
  assumes "list_all (\<lambda>c. c \<in> set valid_chars) s"
  shows "filter isspace s = filter (\<lambda>c. c = CHR '' '') s"
  using assms by (induction s) (simp_all add: valid_chars_isspace)

lemma length_filter_filter: "length (filter P (filter Q xs)) \<le> length (filter P xs)"
  by (induction xs) auto

lemma sanitize_plain_bounds:
  assumes "plain_ascii s"
  shows "length (sanitize tbl s) \<le> MAX_CHARS \<and> length (split_ws (sanitize tbl s)) \<le> MAX_WORDS"
proof -
  define P where "P = (\<lambda>c. (of_char c :: nat) < 128 \<and> c \<noteq> CHR '','' \<and> c \<noteq> CHR '':'' \<and> c \<noteq> CHR 0x09)"
  define sp where "sp = (\<lambda>c. c = CHR '' '')"
  define ws where "ws = take MAX_WORDS (split_on (CHR '' '') s)"
  define f1 where "f1 = join (CHR '' '') ws"
  define f2 where "f2 = take MAX_CHARS f1"
  define f6 where "f6 = sub_pdf_suffix f2"
  define f7 where "f7 = sub_blank_runs f6"
  define out where "out = filter (\<lambda>c. c \<in> set valid_chars) f7"
  from assms have Ps: "list_all P s" by (simp add: plain_ascii_def P_def)
  then have "list_all (list_all P) (split_on (CHR '' '') s)" by (rule split_on_all)
  then have "list_all (list_all P) ws" unfolding ws_def by (rule list_all_take)
  moreover have "P (CHR '' '')" by (simp add: P_def)
  ultimately have P1: "list_all P f1" unfolding f1_def by (rule join_chars)
  then have P2: "list_all P f2" unfolding f2_def by (rule list_all_take)
  have "list_all (\<lambda>w. CHR '' '' \<notin> set w) ws"
    unfolding ws_def by (rule list_all_take) (rule split_on_sep_free)
  then have "length (filter (\<lambda>c. c = CHR '' '') f1) = length ws - 1"
    unfolding f1_def by (rule join_count_sep)
  moreover have "length ws \<le> MAX_WORDS" by (simp add: ws_def)
  moreover have "0 < MAX_WORDS" by (simp add: MAX_WORDS_def)
  ultimately have sp1: "length (filter sp f1) < MAX_WORDS" by (simp add: sp_def)
  have "length (filter sp f2) \<le> length (filter sp f1)"
    unfolding f2_def by (rule length_filter_take)
  with sp1 have sp2: "length (filter sp f2) < MAX_WORDS" by simp
  have "list_all (\<lambda>c. c \<noteq> CHR 0x09) f2"
    by (rule list_all_mono [OF P2]) (simp add: P_def)
  then have blank2: "filter blank f2 = filter sp f2"
    unfolding sp_def by (rule filter_blank_no_tab)
  have "list_all (\<lambda>c. (of_char c :: nat) < 128) f2"
    by (rule list_all_mono [OF P2]) (simp add: P_def)
  then have f3: "unidecode tbl f2 = f2" by (rule unidecode_ascii)
  have P2': "\<And>c. c \<in> set f2 \<Longrightarrow> P c" using P2 by (simp add: list_all_iff)
  have "CHR '','' \<notin> set f2" using P2' [of "CHR '',''"] by (auto simp: P_def)
  then have f4: "sub_comma f2 = f2" by (rule sub_comma_id)
  have "CHR '':'' \<notin> set f2" using P2' [of "CHR '':''"] by (auto simp: P_def)
  then have f5: "sub_colon_space f2 = f2" by (rule sub_colon_space_id)
  have res: "sanitize tbl s = out"
    unfolding sanitize_unfold out_def f7_def f6_def
    by (simp add: f3 f4 f5 ws_def [symmetric] f1_def [symmetric] f2_def [symmetric])
  have "length out \<le> length f7" by (simp add: out_def)
  also have "\<dots> \<le> length f6" unfolding f7_def by (rule length_sub_blank_runs)
  also have "\<dots> \<le> length f2" unfolding f6_def by (rule length_sub_pdf_suffix)
  also have "\<dots> \<le> MAX_CHARS" by (simp add: f2_def)
  finally have len: "length out \<le> MAX_CHARS" .
  have "list_all (\<lambda>c. c \<in> set valid_chars) out" by (simp add: out_def list_all_iff)
  then have "filter isspace out = filter sp out"
    unfolding sp_def by (rule filter_isspace_valid)
  then have "length (filter isspace out) = length (filter sp out)" by simp
  also have "\<dots> \<le> length (filter sp f7)" unfolding out_def by (rule length_filter_filter)
  also have "\<dots> \<le> length (filter blank f6)"
    unfolding f7_def sp_def by (rule spaces_sub_blank_runs)
  also have "\<dots> \<le> length (filter blank f2)" unfolding f6_def by (rule count_sub_pdf_suffix)
  also have "\<dots> = length (filter sp f2)" by (simp add: blank2)
  finally have "length (filter isspace out) < MAX_WORDS" using sp2 by simp
  moreover have "length (split_ws out) \<le> Suc (length (filter isspace out))"
    by (rule length_split_ws)
  ultimately have "length (split_ws out) \<le> MAX_WORDS" by simp
  with len res show ?thesis by simp
qed

text \<open>
  Claim C3, as stated, fails on both bounds. The truncation to 20 words and 200
  characters is the first step; the substitutions that follow can lengthen the text and
  break it into more words. An input of 200 characters that ends in a colon and a space
  gives 201 characters, since \<^verbatim>\<open>': '\<close> becomes \<^verbatim>\<open>' - '\<close>; 23 letters separated
  by commas are one word for the truncation and 23 words in the result.
\<close>

theorem sanitize_bounds_counterexample:
  "length (sanitize ascii_only_table (replicate 198 (CHR ''a'') @ '': '')) = 201 \<and>
   \<not> 201 \<le> MAX_CHARS \<and>
   length (split_ws (sanitize ascii_only_table
     ''a,b,c,d,e,f,g,h,i,j,k,l,m,n,o,p,q,r,s,t,u,v,w'')) = 23 \<and>
   \<not> 23 \<le> MAX_WORDS"
  by code_simp

text \<open>
  Claim C3, amended. For every input and every transliteration table the result holds
  only characters of the allow-set. For ASCII input without comma, colon and tab, which
  the transliteration and the substitutions leave as it is, the result has at most 200
  characters and at most 20 words delimited by whitespace.
\<close>

theorem sanitize_bounds:
  "list_all (\<lambda>c. c \<in> set valid_chars) (sanitize tbl s) \<and>
   (plain_ascii s \<longrightarrow>
      length (sanitize tbl s) \<le> MAX_CHARS \<and> length (split_ws (sanitize tbl s)) \<le> MAX_WORDS)"
  using sanitize_valid_chars [of tbl s] sanitize_plain_bounds [of s tbl] by blast

theorem sanitize_bounds_witness:
  "plain_ascii ''A Fast Algorithm for Title Extraction'' \<and>
   list_all (\<lambda>c. c \<in> set valid_chars)
     (sanitize ascii_only_table ''A Fast Algorithm for Title Extraction'') \<and>
   length (sanitize ascii_only_table ''A Fast Algorithm for Title Extraction'') \<le> MAX_CHARS \<and>
   length (split_ws (sanitize ascii_only_table ''A Fast Algorithm for Title Extraction''))
     \<le> MAX_WORDS"
proof -
  have h: "plain_ascii ''A Fast Algorithm for Title Extraction''" by code_simp
  from sanitize_bounds [of ascii_only_table "''A Fast Algorithm for Title Extraction''"] h
  show ?thesis by blast
qed

lemma drop_pdf_rev_id:
  assumes "take 4 xs \<noteq> ''fdp.''"
  shows "drop_pdf_rev xs = xs"
  using assms by (cases xs rule: drop_pdf_rev.cases) auto

lemma sub_pdf_suffix_id:
  assumes "\<not> ends_with_pdf t" and "CHR 0x0A \<notin> set t"
  shows "sub_pdf_suffix t = t"
proof -
  from assms(2) have "\<not> (t \<noteq> [] \<and> last t = CHR 0x0A)" using last_in_set by metis
  moreover from assms(1) have "drop_pdf_rev (rev t) = rev t"
    unfolding ends_with_pdf_def by (rule drop_pdf_rev_id)
  ultimately show ?thesis by (auto simp: sub_pdf_suffix_def)
qed

lemma sub_blank_runs_id:
  assumes "CHR 0x09 \<notin> set t" and "\<not> double_space t"
  shows "sub_blank_runs t = t"
  using assms by (induction t rule: sub_blank_runs.induct) (auto simp: blank_def)

text \<open>
  A string of allow-set characters that is within both bounds, has no two spaces in a
  row and does not end in \<^verbatim>\<open>.pdf\<close> is a fixed point of \<^const>\<open>sanitize\<close>.
\<close>

lemma sanitize_fixed:
  assumes valid: "list_all (\<lambda>c. c \<in> set valid_chars) t"
    and "length (split_on (CHR '' '') t) \<le> MAX_WORDS"
    and "length t \<le> MAX_CHARS"
    and "\<not> double_space t"
    and "\<not> ends_with_pdf t"
  shows "sanitize tbl t = t"
proof -
  have all: "\<And>c. c \<in> set t \<Longrightarrow> (of_char c :: nat) < 128 \<and> c \<noteq> CHR '','' \<and> c \<noteq> CHR '':''
      \<and> c \<noteq> CHR 0x09 \<and> c \<noteq> CHR 0x0A"
    using valid valid_chars_all by (simp add: list_all_iff)
  have f1: "join (CHR '' '') (take MAX_WORDS (split_on (CHR '' '') t)) = t"
    using assms(2) by (simp add: join_split_on)
  have f2: "take MAX_CHARS t = t" using assms(3) by simp
  have "list_all (\<lambda>c. (of_char c :: nat) < 128) t" using all by (simp add: list_all_iff)
  then have f3: "unidecode tbl t = t" by (rule unidecode_ascii)
  have "CHR '','' \<notin> set t" using all by blast
  then have f4: "sub_comma t = t" by (rule sub_comma_id)
  have "CHR '':'' \<notin> set t" using all by blast
  then have f5: "sub_colon_space t = t" by (rule sub_colon_space_id)
  have "CHR 0x0A \<notin> set t" using all by blast
  with assms(5) have f6: "sub_pdf_suffix t = t" by (rule sub_pdf_suffix_id)
  have "CHR 0x09 \<notin> set t" using all by blast
  then have f7: "sub_blank_runs t = t" using assms(4) by (rule sub_blank_runs_id)
  have f8: "filter (\<lambda>c. c \<in> set valid_chars) t = t"
    using valid by (simp add: list_all_iff)
  show ?thesis by (simp add: sanitize_unfold f1 f2 f3 f4 f5 f6 f7 f8)
qed

lemma length_join:
  "length (join sep ws) = sum_list (map length ws) + (length ws - 1)"
  by (induction sep ws rule: join.induct) auto

lemma sum_list_take_le: "sum_list (map length (take n ws)) \<le> sum_list (map length ws)"
proof -
  have "sum_list (map length ws)
          = sum_list (map length (take n ws)) + sum_list (map length (drop n ws))"
    by (metis append_take_drop_id map_append sum_list_append)
  then show ?thesis by simp
qed

lemma length_join_take:
  assumes "0 < n" and "n < length ws"
  shows "length (join sep (take n ws)) < length (join sep ws)"
proof -
  have "length (take n ws) - 1 < length ws - 1" using assms by simp
  with sum_list_take_le [of n ws] show ?thesis unfolding length_join by linarith
qed

lemma length_join_take_le: "length (join sep (take n ws)) \<le> length (join sep ws)"
proof -
  have "length (take n ws) - 1 \<le> length ws - 1" by simp
  with sum_list_take_le [of n ws] show ?thesis unfolding length_join by linarith
qed

lemma length_drop_pdf_rev: "length (drop_pdf_rev xs) \<le> length xs"
  using count_drop_pdf_rev [of "\<lambda>c. True" xs] by simp

lemma sub_pdf_suffix_shorter:
  assumes "ends_with_pdf t" and "CHR 0x0A \<notin> set t"
  shows "length (sub_pdf_suffix t) < length t"
proof -
  from assms(1) obtain rest where r: "rev t = ''fdp.'' @ rest"
    unfolding ends_with_pdf_def by (metis append_take_drop_id)
  then have "drop_pdf_rev (rev t) = drop_pdf_rev rest" by simp
  moreover have "length (drop_pdf_rev rest) \<le> length rest" by (rule length_drop_pdf_rev)
  moreover have "length t = 4 + length rest"
  proof -
    from r have "length (rev t) = length (''fdp.'' @ rest)" by (rule arg_cong)
    then show ?thesis by simp
  qed
  moreover from assms(2) have "\<not> (t \<noteq> [] \<and> last t = CHR 0x0A)" using last_in_set by metis
  ultimately show ?thesis by (auto simp: sub_pdf_suffix_def)
qed

lemma sub_blank_runs_shorter:
  assumes "double_space t"
  shows "length (sub_blank_runs t) < length t"
  using assms
proof (induction t rule: sub_blank_runs.induct)
  case (3 c d cs)
  have le: "length (sub_blank_runs (d # cs)) \<le> length (d # cs)"
    by (rule length_sub_blank_runs)
  show ?case
  proof (cases "blank c \<and> blank d")
    case True
    with le show ?thesis by simp
  next
    case False
    with 3 have "double_space (d # cs)" by (auto simp: blank_def)
    with 3 False have "length (sub_blank_runs (d # cs)) < length (d # cs)" by blast
    with False show ?thesis by simp
  qed
qed simp_all

lemma valid_chars_space: "CHR '' '' \<in> set valid_chars"
  by (simp add: valid_chars_def)

lemma sanitize_on_valid:
  assumes "list_all (\<lambda>c. c \<in> set valid_chars) t"
  shows "sanitize tbl t =
           filter (\<lambda>c. c \<in> set valid_chars)
             (sub_blank_runs (sub_pdf_suffix
                (take MAX_CHARS (join (CHR '' '') (take MAX_WORDS (split_on (CHR '' '') t))))))"
proof -
  define f2 where "f2 = take MAX_CHARS (join (CHR '' '') (take MAX_WORDS (split_on (CHR '' '') t)))"
  from assms have "list_all (list_all (\<lambda>c. c \<in> set valid_chars)) (split_on (CHR '' '') t)"
    by (rule split_on_all)
  then have "list_all (list_all (\<lambda>c. c \<in> set valid_chars))
      (take MAX_WORDS (split_on (CHR '' '') t))" by (rule list_all_take)
  then have "list_all (\<lambda>c. c \<in> set valid_chars)
      (join (CHR '' '') (take MAX_WORDS (split_on (CHR '' '') t)))"
    using valid_chars_space by (rule join_chars)
  then have v2: "list_all (\<lambda>c. c \<in> set valid_chars) f2"
    unfolding f2_def by (rule list_all_take)
  have all: "\<And>c. c \<in> set f2 \<Longrightarrow> (of_char c :: nat) < 128 \<and> c \<noteq> CHR '','' \<and> c \<noteq> CHR '':''"
    using v2 valid_chars_all by (simp add: list_all_iff)
  have "list_all (\<lambda>c. (of_char c :: nat) < 128) f2" using all by (simp add: list_all_iff)
  then have f3: "unidecode tbl f2 = f2" by (rule unidecode_ascii)
  have "CHR '','' \<notin> set f2" using all by blast
  then have f4: "sub_comma f2 = f2" by (rule sub_comma_id)
  have "CHR '':'' \<notin> set f2" using all by blast
  then have f5: "sub_colon_space f2 = f2" by (rule sub_colon_space_id)
  show ?thesis
    unfolding sanitize_unfold f2_def [symmetric] by (simp add: f3 f4 f5)
qed

text \<open>
  These conditions are also necessary: no step of \<^const>\<open>sanitize\<close> lengthens a
  string of allow-set characters, and a step that changes it shortens it.
\<close>

lemma sanitize_fixed_only_if:
  assumes valid: "list_all (\<lambda>c. c \<in> set valid_chars) t"
    and fixed: "sanitize tbl t = t"
  shows "length (split_on (CHR '' '') t) \<le> MAX_WORDS \<and> length t \<le> MAX_CHARS \<and>
         \<not> double_space t \<and> \<not> ends_with_pdf t"
proof -
  define f1 where "f1 = join (CHR '' '') (take MAX_WORDS (split_on (CHR '' '') t))"
  define f2 where "f2 = take MAX_CHARS f1"
  define f6 where "f6 = sub_pdf_suffix f2"
  define f7 where "f7 = sub_blank_runs f6"
  have "sanitize tbl t = filter (\<lambda>c. c \<in> set valid_chars) f7"
    unfolding f7_def f6_def f2_def f1_def using valid by (rule sanitize_on_valid)
  with fixed have "length t = length (filter (\<lambda>c. c \<in> set valid_chars) f7)" by simp
  then have l7: "length t \<le> length f7" by (metis length_filter_le)
  have l76: "length f7 \<le> length f6" unfolding f7_def by (rule length_sub_blank_runs)
  have l62: "length f6 \<le> length f2" unfolding f6_def by (rule length_sub_pdf_suffix)
  have l21: "length f2 \<le> length f1" by (simp add: f2_def)
  have "length f1 \<le> length (join (CHR '' '') (split_on (CHR '' '') t))"
    unfolding f1_def by (rule length_join_take_le)
  then have l1t: "length f1 \<le> length t" by (simp add: join_split_on)
  from l7 l76 l62 l21 l1t have e1: "length f1 = length t" and e2: "length f2 = length t"
    and e6: "length f6 = length t" and e7: "length f7 = length t" by simp_all
  have words: "length (split_on (CHR '' '') t) \<le> MAX_WORDS"
  proof (rule ccontr)
    assume "\<not> length (split_on (CHR '' '') t) \<le> MAX_WORDS"
    then have "MAX_WORDS < length (split_on (CHR '' '') t)" by simp
    moreover have "0 < MAX_WORDS" by (simp add: MAX_WORDS_def)
    ultimately have "length f1 < length (join (CHR '' '') (split_on (CHR '' '') t))"
      unfolding f1_def by (intro length_join_take)
    with e1 show False by (simp add: join_split_on)
  qed
  then have f1: "f1 = t" by (simp add: f1_def join_split_on)
  from e2 have chars: "length t \<le> MAX_CHARS" by (simp add: f2_def f1)
  then have f2: "f2 = t" by (simp add: f2_def f1)
  have nl: "CHR 0x0A \<notin> set t" using valid valid_chars_all by (auto simp: list_all_iff)
  have tab: "CHR 0x09 \<notin> set t" using valid valid_chars_all by (auto simp: list_all_iff)
  have pdf: "\<not> ends_with_pdf t"
  proof
    assume "ends_with_pdf t"
    then have "length (sub_pdf_suffix t) < length t" using nl by (rule sub_pdf_suffix_shorter)
    with e6 show False by (simp add: f6_def f2)
  qed
  then have f6: "f6 = t" using nl by (simp add: f6_def f2 sub_pdf_suffix_id)
  have "\<not> double_space t"
  proof
    assume "double_space t"
    then have "length (sub_blank_runs t) < length t" by (rule sub_blank_runs_shorter)
    with e7 show False by (simp add: f7_def f6)
  qed
  with words chars pdf show ?thesis by simp
qed

text \<open>
  Claim C4, as stated, fails: the characters outside the allow-set are dropped last, so
  dropping them can uncover a suffix \<^verbatim>\<open>.pdf\<close> that the first pass did not strip and
  the second pass does.
\<close>

theorem sanitize_idempotent_counterexample:
  "sanitize ascii_only_table ''a.pdf!'' = ''a.pdf'' \<and>
   sanitize ascii_only_table (sanitize ascii_only_table ''a.pdf!'') = ''a'' \<and>
   sanitize ascii_only_table (sanitize ascii_only_table ''a.pdf!'')
     \<noteq> sanitize ascii_only_table ''a.pdf!''"
  by code_simp

text \<open>
  Claim C4, amended. A second pass returns the result of the first whenever that result
  has at most 20 words separated by single spaces, at most 200 characters, no two spaces
  in a row, and does not end in \<^verbatim>\<open>.pdf\<close>.
\<close>

theorem sanitize_idempotent:
  assumes "length (split_on (CHR '' '') (sanitize tbl s)) \<le> MAX_WORDS"
    and "length (sanitize tbl s) \<le> MAX_CHARS"
    and "\<not> double_space (sanitize tbl s)"
    and "\<not> ends_with_pdf (sanitize tbl s)"
  shows "sanitize tbl (sanitize tbl s) = sanitize tbl s"
  using sanitize_valid_chars [of tbl s] assms by (rule sanitize_fixed)

theorem sanitize_idempotent_witness:
  "length (split_on (CHR '' '') (sanitize ascii_only_table ''Efficient Parsing: A Survey''))
     \<le> MAX_WORDS \<and>
   length (sanitize ascii_only_table ''Efficient Parsing: A Survey'') \<le> MAX_CHARS \<and>
   \<not> double_space (sanitize ascii_only_table ''Efficient Parsing: A Survey'') \<and>
   \<not> ends_with_pdf (sanitize ascii_only_table ''Efficient Parsing: A Survey'') \<and>
   sanitize ascii_only_table ''Efficient Parsing: A Survey'' = ''Efficient Parsing - A Survey'' \<and>
   sanitize ascii_only_table (sanitize ascii_only_table ''Efficient Parsing: A Survey'')
     = sanitize ascii_only_table ''Efficient Parsing: A Survey''"
proof -
  have v: "sanitize ascii_only_table ''Efficient Parsing: A Survey''
             = ''Efficient Parsing - A Survey''" by code_simp
  have h1: "length (split_on (CHR '' '') (sanitize ascii_only_table ''Efficient Parsing: A Survey''))
     \<le> MAX_WORDS" unfolding v by code_simp
  have h2: "length (sanitize ascii_only_table ''Efficient Parsing: A Survey'') \<le> MAX_CHARS"
    unfolding v by code_simp
  have h3: "\<not> double_space (sanitize ascii_only_table ''Efficient Parsing: A Survey'')"
    unfolding v by code_simp
  have h4: "\<not> ends_with_pdf (sanitize ascii_only_table ''Efficient Parsing: A Survey'')"
    unfolding v by code_simp
  from sanitize_idempotent [OF h1 h2 h3 h4] h1 h2 h3 h4 v show ?thesis by blast
qed

section \<open>Properties of the tracker\<close>

lemma update_largest_text_fsize:
  "fsize lt \<le> fsize (update_largest_text line y size0 lt)"
  unfolding update_largest_text_def Let_def TOLERANCE_def by simp

text \<open>
  Claim C5. Over every sequence of updates that starts from the initial state, the size
  held by the tracker never decreases: the state after a prefix of the updates has a size
  no larger than the state after the whole sequence.
\<close>

theorem scan_fsize_monotone:
  "fsize (scan us initial_largest_text) \<le> fsize (scan (us @ vs) initial_largest_text)"
proof -
  have step: "fsize lt \<le> fsize (scan ws lt)" for ws lt
  proof (induction ws arbitrary: lt)
    case Nil
    show ?case by simp
  next
    case (Cons u ws)
    obtain line y size0 where u: "u = (line, y, size0)" by (cases u) auto
    have "fsize lt \<le> fsize (update_largest_text line y size0 lt)"
      by (rule update_largest_text_fsize)
    also have "\<dots> \<le> fsize (scan ws (update_largest_text line y size0 lt))"
      by (rule Cons.IH)
    finally show ?case by (simp add: u)
  qed
  have app: "scan (ws @ vs) lt = scan vs (scan ws lt)" for ws lt
    by (induction ws arbitrary: lt) auto
  show ?thesis by (simp add: app step)
qed

text \<open>
  Claim C6, as stated, fails. The source keeps the state only when
  \<^verbatim>\<open>y0 - largest_text['y0'] < -TOLERANCE\<close>, that is when the incoming line lies
  below the line of the state by more than the tolerance. An incoming line at the same
  \<open>y0\<close> as the state is not above it, yet with both sizes zero it is appended to the
  contents: the state changes.
\<close>

theorem zero_size_same_y0_counterexample:
  "fsize \<lparr>contents = ''Deep Nets'', y0 = 700, fsize = 0\<rparr> = 0 \<and>
   \<not> 700 > y0 \<lparr>contents = ''Deep Nets'', y0 = 700, fsize = 0\<rparr> \<and>
   \<not> 700 - y0 \<lparr>contents = ''Deep Nets'', y0 = 700, fsize = 0\<rparr> > TOLERANCE \<and>
   update_largest_text ''A. Author'' 700 0 \<lparr>contents = ''Deep Nets'', y0 = 700, fsize = 0\<rparr>
     = \<lparr>contents = ''Deep NetsA. Author'', y0 = 700, fsize = 0\<rparr> \<and>
   update_largest_text ''A. Author'' 700 0 \<lparr>contents = ''Deep Nets'', y0 = 700, fsize = 0\<rparr>
     \<noteq> \<lparr>contents = ''Deep Nets'', y0 = 700, fsize = 0\<rparr>"
  by (simp add: update_largest_text_def is_close_def TOLERANCE_def sub_final_newline_def)

text \<open>
  Claim C6, amended. The zero-size fallback: when the incoming size and the size of the
  state are both exactly zero and the incoming \<open>y0\<close> is below the state's \<open>y0\<close> by
  more than \<open>TOLERANCE\<close>, the state is returned unchanged.
\<close>

theorem update_largest_text_zero_size:
  assumes "size0 = 0" and "fsize lt = 0" and "y - y0 lt < - TOLERANCE"
  shows "update_largest_text line y size0 lt = lt"
  using assms unfolding update_largest_text_def by simp

theorem update_largest_text_zero_size_witness:
  "(0::real) = 0 \<and> fsize \<lparr>contents = ''Deep Nets'', y0 = 700, fsize = 0\<rparr> = 0 \<and>
   690 - y0 \<lparr>contents = ''Deep Nets'', y0 = 700, fsize = 0\<rparr> < - TOLERANCE \<and>
   update_largest_text ''A. Author'' 690 0 \<lparr>contents = ''Deep Nets'', y0 = 700, fsize = 0\<rparr>
     = \<lparr>contents = ''Deep Nets'', y0 = 700, fsize = 0\<rparr>"
proof -
  let ?lt = "\<lparr>contents = ''Deep Nets'', y0 = 700, fsize = 0\<rparr>"
  have h1: "(0::real) = 0" by simp
  have h2: "fsize ?lt = 0" by simp
  have h3: "690 - y0 ?lt < - TOLERANCE" by (simp add: TOLERANCE_def)
  from update_largest_text_zero_size [OF h1 h2 h3, of "''A. Author''"] h2 h3
  show ?thesis by simp
qed

text \<open>
  Where the incoming \<open>y0\<close> is not below the state's by more than the tolerance, two
  zero sizes are close, and the line is appended.
\<close>

lemma update_largest_text_zero_size_not_below:
  assumes "fsize lt = 0" and "\<not> y - y0 lt < - TOLERANCE"
  shows "update_largest_text line y 0 lt
           = lt\<lparr>contents := contents lt @ sub_final_newline line, y0 := y\<rparr>"
  using assms unfolding update_largest_text_def is_close_def TOLERANCE_def by simp

text \<open>
  Claim C7, as stated, fails: sizes 4 and 4.000002 are within the symmetric relative
  tolerance of each other, yet the second update replaces the state, because the test
  \<^verbatim>\<open>size - largest_text['size'] > TOLERANCE\<close> comes first and is absolute.
\<close>

theorem continuation_replaced_counterexample:
  "is_close 4.000002 4 \<and>
   contents (update_largest_text ''B'' 698 4.000002
              (update_largest_text ''A'' 700 4 initial_largest_text)) = ''B'' \<and>
   contents (update_largest_text ''B'' 698 4.000002
              (update_largest_text ''A'' 700 4 initial_largest_text)) \<noteq> ''AB''"
  by (simp add: update_largest_text_def is_close_def TOLERANCE_def initial_largest_text_def
      sub_final_newline_def)

text \<open>
  Claim C7, amended. When the first update replaces the state with a size that is not
  zero, and the size of the second update is within the symmetric relative tolerance of
  the first without exceeding it by more than \<open>TOLERANCE\<close>, the second update appends
  its line to the contents and sets \<open>y0\<close>; the size stays. The example of the claim is
  the witness.
\<close>

theorem continuation_merging:
  assumes "size1 - fsize lt > TOLERANCE" and "size1 \<noteq> 0"
    and "is_close size2 size1" and "size2 - size1 \<le> TOLERANCE"
  shows "update_largest_text l2 y2 size2 (update_largest_text l1 y1 size1 lt)
           = \<lparr>contents = sub_final_newline l1 @ sub_final_newline l2, y0 = y2, fsize = size1\<rparr>"
proof -
  have first: "update_largest_text l1 y1 size1 lt
                 = \<lparr>contents = sub_final_newline l1, y0 = y1, fsize = size1\<rparr>"
    using assms(1,2) unfolding update_largest_text_def TOLERANCE_def by (simp add: Let_def)
  show ?thesis
    unfolding first using assms(2,3,4) unfolding update_largest_text_def TOLERANCE_def
    by (simp add: Let_def)
qed

theorem continuation_merging_witness:
  "12 - fsize initial_largest_text > TOLERANCE \<and> (12::real) \<noteq> 0 \<and>
   is_close 12.0000005 12 \<and> 12.0000005 - 12 \<le> TOLERANCE \<and>
   update_largest_text ''Networks'' 698 12.0000005
     (update_largest_text ''Neural '' 700 12 initial_largest_text)
     = \<lparr>contents = ''Neural Networks'', y0 = 698, fsize = 12\<rparr>"
proof -
  have h1: "12 - fsize initial_largest_text > TOLERANCE"
    by (simp add: initial_largest_text_def TOLERANCE_def)
  have h2: "(12::real) \<noteq> 0" by simp
  have h3: "is_close 12.0000005 12" by (simp add: is_close_def TOLERANCE_def)
  have h4: "12.0000005 - 12 \<le> TOLERANCE" by (simp add: TOLERANCE_def)
  from continuation_merging [OF h1 h2 h3 h4, of "''Networks''" 698 "''Neural ''" 700]
  have "update_largest_text ''Networks'' 698 12.0000005
          (update_largest_text ''Neural '' 700 12 initial_largest_text)
          = \<lparr>contents = ''Neural Networks'', y0 = 698, fsize = 12\<rparr>"
    by (simp add: sub_final_newline_def)
  with h1 h2 h3 h4 show ?thesis by blast
qed

section \<open>Properties of the figure reconstructor\<close>

lemma figure_step_same_size:
  assumes "char_size ch = fig_size f"
  shows "fig_largest_text (figure_step f (LTChar ch)) = fig_largest_text f \<and>
         fig_text (figure_step f (LTChar ch)) = fig_text f \<and>
         fig_size (figure_step f (LTChar ch)) = fig_size f"
  using assms by (simp add: figure_step_def Let_def)

lemma figure_loop_same_size:
  assumes "list_all (\<lambda>ch. char_size ch = fig_size f) chs"
  shows "fig_largest_text (foldl figure_step f (map LTChar chs)) = fig_largest_text f \<and>
         fig_text (foldl figure_step f (map LTChar chs)) = fig_text f"
  using assms
proof (induction chs arbitrary: f)
  case Nil
  show ?case by simp
next
  case (Cons ch chs)
  from Cons.prems have same: "char_size ch = fig_size f" by simp
  note st = figure_step_same_size [OF same]
  from Cons.prems st have "list_all (\<lambda>c. char_size c = fig_size (figure_step f (LTChar ch))) chs"
    by simp
  from Cons.IH [OF this] st show ?case by simp
qed

text \<open>
  A figure whose glyphs all have one size, not zero, is one line that is still in
  progress when the loop ends. Nothing of it is returned: the tracker has only seen the
  empty line that the first glyph flushed, and the text is that empty line.
\<close>

lemma figure_one_size_text_lost:
  assumes "s \<noteq> 0" and "list_all (\<lambda>ch. char_size ch = s) (ch # chs)"
  shows "extract_figure_text (map LTChar (ch # chs)) lt
           = (update_largest_text [] 0 0 lt, [CHR 0x0A])"
proof -
  let ?f = "figure_step (initial_figure_state lt) (LTChar ch)"
  from assms have ne: "char_size ch \<noteq> fig_size (initial_figure_state lt)"
    by (simp add: initial_figure_state_def)
  have f: "fig_largest_text ?f = update_largest_text [] 0 0 lt" "fig_text ?f = [CHR 0x0A]"
    "fig_size ?f = s"
    using ne assms(2) by (simp_all add: figure_step_def initial_figure_state_def)
  from assms(2) f(3) have "list_all (\<lambda>c. char_size c = fig_size ?f) chs" by simp
  from figure_loop_same_size [OF this] f
  show ?thesis by (simp add: extract_figure_text_def figure_loop_def)
qed

text \<open>
  Claim C2 asks that the line in progress when the loop ends is flushed into the tracker
  and the text. The source returns right after the loop. On the two glyphs of "Hi", both
  of size 12, the line in progress at the end is "Hi", and the function returns the
  initial tracker state and a text that is one newline: the line is dropped.
\<close>

theorem figure_last_line_dropped:
  "fig_line (figure_loop
     [LTChar \<lparr>x0 = 0, x1 = 6, char_y0 = 700, char_size = 12, char_text = ''H''\<rparr>,
      LTChar \<lparr>x0 = 6, x1 = 9, char_y0 = 700, char_size = 12, char_text = ''i''\<rparr>]
     initial_largest_text) = ''Hi'' \<and>
   extract_figure_text
     [LTChar \<lparr>x0 = 0, x1 = 6, char_y0 = 700, char_size = 12, char_text = ''H''\<rparr>,
      LTChar \<lparr>x0 = 6, x1 = 9, char_y0 = 700, char_size = 12, char_text = ''i''\<rparr>]
     initial_largest_text = (initial_largest_text, [CHR 0x0A])"
  by (simp add: extract_figure_text_def figure_loop_def figure_step_def initial_figure_state_def
      initial_largest_text_def update_largest_text_def is_close_def TOLERANCE_def
      sub_final_newline_def empty_str_def strip_def isspace_def Let_def)

section \<open>Properties of the page scan\<close>

lemma strip_unchanged:
  assumes "s \<noteq> []" and "\<not> isspace (hd s)" and "\<not> isspace (last s)"
  shows "strip s = s"
proof -
  from assms(1,2) have a: "dropWhile isspace s = s" by (cases s) auto
  from assms(1,3) have "dropWhile isspace (rev s) = rev s"
    by (cases "rev s") (auto simp: last_rev hd_rev)
  with a show ?thesis by (simp add: strip_def)
qed

lemma stripped_to_chars_replicate:
  "stripped_to_chars (replicate (Suc n) (CHR ''a'')) = replicate (Suc n) (CHR ''a'')"
proof -
  have "strip (replicate (Suc n) (CHR ''a'')) = replicate (Suc n) (CHR ''a'')"
    by (rule strip_unchanged) (simp_all add: isspace_def last_replicate del: replicate.simps)
  then show ?thesis
    unfolding stripped_to_chars_def by (simp del: replicate.simps)
qed

text \<open>
  Claim C8, as stated, fails: the bound of the source is \<^verbatim>\<open>MAX_CHARS * 2\<close>, which is
  400, that is 20 times \<^verbatim>\<open>MAX_WORDS\<close> and not 40 times. A text block of 401 visible
  characters does not exceed 40 times \<^verbatim>\<open>MAX_WORDS\<close> and is skipped all the same.
\<close>

theorem body_block_threshold_counterexample:
  "length (stripped_to_chars (replicate 401 (CHR ''a''))) = 401 \<and>
   \<not> 401 > 40 * MAX_WORDS \<and>
   page_step (initial_largest_text, []) (LTTextBox (replicate 401 (CHR ''a'')) [])
     = (initial_largest_text, [])"
proof -
  have "stripped_to_chars (replicate (Suc 400) (CHR ''a'')) = replicate (Suc 400) (CHR ''a'')"
    by (rule stripped_to_chars_replicate)
  then have len: "length (stripped_to_chars (replicate 401 (CHR ''a''))) = 401"
    by (simp del: replicate.simps replicate_Suc)
  then show ?thesis
    by (simp add: page_step_def MAX_CHARS_def MAX_WORDS_def del: replicate.simps replicate_Suc)
qed

text \<open>
  Claim C8, amended. The grouped-text path skips a text block, feeding neither the
  tracker nor the full text, exactly when the count of the block's visible characters
  (its text stripped, without spaces, tabs and newlines) exceeds 20 times
  \<^verbatim>\<open>MAX_WORDS\<close>, that is 400; a block that is not skipped is handed to the extractor
  and its text, with a newline, is appended to the full text.
\<close>

theorem body_block_threshold:
  "page_step (lt, text) (LTTextBox obj_text children)
     = (if length (stripped_to_chars obj_text) > 20 * MAX_WORDS then (lt, text)
        else (extract_largest_text obj_text children lt, text @ obj_text @ [CHR 0x0A])) \<and>
   (page_step (lt, text) (LTTextBox obj_text children) = (lt, text))
     = (length (stripped_to_chars obj_text) > 20 * MAX_WORDS) \<and>
   20 * MAX_WORDS = 400"
  by (simp add: page_step_def MAX_CHARS_def MAX_WORDS_def)

section \<open>Properties of the title strategies\<close>

lemma rfind_ge: "- 1 \<le> rfind c s"
  by (induction s) (auto simp: Let_def)

lemma rfind_notin: "c \<notin> set s \<Longrightarrow> rfind c s = - 1"
  by (induction s) (auto simp: Let_def)

lemma splitext_no_dot:
  assumes "CHR ''.'' \<notin> set p"
  shows "splitext p = (p, [])"
proof -
  have "rfind (CHR ''.'') p = - 1" using assms by (rule rfind_notin)
  moreover have "- 1 \<le> rfind (CHR ''/'') p" by (rule rfind_ge)
  ultimately show ?thesis by (simp add: splitext_def Let_def)
qed

lemma sub_tab_newline_sub_dot:
  "CHR ''.'' \<notin> set (sub_tab_newline (sub_dot t)) \<and>
   CHR 0x09 \<notin> set (sub_tab_newline (sub_dot t)) \<and>
   CHR 0x0A \<notin> set (sub_tab_newline (sub_dot t))"
  by (simp add: sub_tab_newline_def sub_dot_def)

lemma text_title_shape:
  assumes "text_title parsed = Inr title"
  shows "\<exists>t. title = sub_tab_newline (sub_dot t)"
  using assms
  by (auto simp: text_title_def Let_def split: sum.splits option.splits prod.splits if_splits)

lemma pdftotext_title_shape:
  assumes "pdftotext_title out = Inr title"
  shows "\<exists>t. title = sub_tab_newline (sub_dot t)"
  using assms
  by (auto simp: pdftotext_title_def split: sum.splits)

lemma empty_str_Nil: "empty_str []"
  by (simp add: empty_str_def strip_def)

text \<open>
  Claim C10. A title that the layout strategy or the external-tool strategy returns has
  no period, no tab and no newline. So it has no extension, and \<^verbatim>\<open>valid_title\<close>
  never rejects it by its extension check: on such a title validity is decided by the
  other two checks alone.
\<close>

theorem text_strategies_strip_dots:
  assumes "text_title parsed = Inr title \<or> pdftotext_title out = Inr title"
  shows "CHR ''.'' \<notin> set title \<and> CHR 0x09 \<notin> set title \<and> CHR 0x0A \<notin> set title \<and>
         empty_str (snd (splitext title)) \<and>
         valid_title title = (\<not> empty_str title \<and> \<not> junk_line title)"
proof -
  from assms obtain t where t: "title = sub_tab_newline (sub_dot t)"
    using text_title_shape pdftotext_title_shape by blast
  have chars: "CHR ''.'' \<notin> set title \<and> CHR 0x09 \<notin> set title \<and> CHR 0x0A \<notin> set title"
    unfolding t by (rule sub_tab_newline_sub_dot)
  then have ext: "splitext title = (title, [])" by (simp add: splitext_no_dot)
  then have "empty_str (snd (splitext title))" by (simp add: empty_str_Nil)
  with chars show ?thesis by (simp add: valid_title_def)
qed

theorem text_strategies_strip_dots_witness:
  "text_title (Inr [[LTTextBox ''Deep Nets v1.0''
       [LTTextLine ''Deep Nets v1.0''
          [LTChar \<lparr>x0 = 0, x1 = 9, char_y0 = 700, char_size = 14, char_text = ''D''\<rparr>,
           LTChar \<lparr>x0 = 9, x1 = 16, char_y0 = 700, char_size = 14, char_text = ''e''\<rparr>,
           LTChar \<lparr>x0 = 16, x1 = 23, char_y0 = 700, char_size = 14, char_text = ''e''\<rparr>]]]])
     = Inr ''Deep Nets v10'' \<and>
   pdftotext_title (Str ''Deep Nets v1.0'') = Inr ''Deep Nets v10'' \<and>
   CHR ''.'' \<notin> set ''Deep Nets v10'' \<and>
   empty_str (snd (splitext ''Deep Nets v10'')) \<and>
   valid_title ''Deep Nets v10''"
proof -
  let ?pages = "[[LTTextBox ''Deep Nets v1.0''
       [LTTextLine ''Deep Nets v1.0''
          [LTChar \<lparr>x0 = 0, x1 = 9, char_y0 = 700, char_size = 14, char_text = ''D''\<rparr>,
           LTChar \<lparr>x0 = 9, x1 = 16, char_y0 = 700, char_size = 14, char_text = ''e''\<rparr>,
           LTChar \<lparr>x0 = 16, x1 = 23, char_y0 = 700, char_size = 14, char_text = ''e''\<rparr>]]]]"
  have h1: "text_title (Inr ?pages) = Inr ''Deep Nets v10''"
    by (simp add: text_title_def pdf_text_def page_step_def stripped_to_chars_def strip_def
        isspace_def MAX_CHARS_def MAX_WORDS_def extract_largest_text_def
        update_largest_text_def initial_largest_text_def TOLERANCE_def sub_final_newline_def
        sub_cid_def cid_token_def empty_str_def sub_dot_def sub_tab_newline_def Let_def)
  have h2: "pdftotext_title (Str ''Deep Nets v1.0'') = Inr ''Deep Nets v10''"
    by code_simp
  have e: "\<not> empty_str ''Deep Nets v10''" by code_simp
  have j: "\<not> junk_line ''Deep Nets v10''" by code_simp
  from text_strategies_strip_dots [of "Inr ?pages" "''Deep Nets v10''" "Str ''Deep Nets v1.0''"]
    h1 h2 e j
  show ?thesis by simp
qed

section \<open>Properties of the metadata strategy\<close>

lemma hasattr_title:
  "\<not> hasattr meta ''title''" "\<not> hasattr meta ''Title''" "\<not> hasattr meta ''TITLE''"
  by (simp_all add: hasattr_def dict_attributes_def)

lemma meta_loop_empty: "meta_loop metas = Inr []"
  by (induction metas) (simp_all add: hasattr_title)

text \<open>
  The loop asks each dictionary of the document's \<^verbatim>\<open>info\<close> for an attribute named
  \<^verbatim>\<open>title\<close>, \<^verbatim>\<open>Title\<close> or \<^verbatim>\<open>TITLE\<close>. A dictionary has no such attribute,
  whatever its keys, so no key is ever read and the result is the empty string.
\<close>

lemma meta_title_never_reads_keys: "meta_title (Inr (Some metas)) = Inr []"
  by (simp add: meta_title_def meta_loop_empty)

text \<open>
  Claim C9 asks that the metadata strategy returns the title field when the metadata
  record has one under the key \<^verbatim>\<open>title\<close>, \<^verbatim>\<open>Title\<close> or \<^verbatim>\<open>TITLE\<close>. On a document
  whose \<^verbatim>\<open>info\<close> is the one dictionary \<^verbatim>\<open>{'Title': 'Deep Learning Methods'}\<close> the
  source returns the empty string.
\<close>

theorem meta_title_ignores_title_key:
  "map_of [(''Title'', ''Deep Learning Methods'')] ''Title'' = Some ''Deep Learning Methods'' \<and>
   meta_title (Inr (Some [[(''Title'', ''Deep Learning Methods'')]])) = Inr []"
  by (simp add: meta_title_def hasattr_title)

text \<open>
  The other half of the claim holds: an exception of the metadata strategy, an absent
  \<^verbatim>\<open>info\<close> and an empty title all leave the first \<^verbatim>\<open>try\<close> block without a title,
  and the orchestrator goes on to the layout strategy.
\<close>

lemma try_title_meta_failure:
  "try_title (meta_title (Inl e)) = None" "try_title (meta_title (Inr None)) = None"
  "try_title (meta_title (Inr (Some metas))) = None"
  by (simp_all add: try_title_def meta_title_def meta_loop_empty valid_title_def empty_str_Nil)

section \<open>Properties of the orchestrator\<close>

text \<open>
  The call of the external-tool strategy stands outside every \<^verbatim>\<open>try\<close> block. When
  the first two strategies give no valid title and the tool's output is bytes, the
  exception of \<^verbatim>\<open>out.strip().split('\n')\<close> leaves \<^verbatim>\<open>pdf_title\<close>.
\<close>

lemma pdf_title_bytes_raises:
  assumes "try_title (meta_title (docinfo v)) = None"
    and "try_title (text_title (layout v)) = None"
    and "pdftotext_out v = Bytes b"
  shows "pdf_title filename v = Inl TypeError"
  using assms by (simp add: pdf_title_def pdftotext_title_def split_newline_def)

text \<open>
  Where the tool's output is text, \<^verbatim>\<open>pdf_title\<close> returns a string.
\<close>

lemma pdf_title_text_returns:
  assumes "pdftotext_out v = Str out"
  shows "\<exists>title. pdf_title filename v = Inr title"
  using assms
  by (auto simp: pdf_title_def pdftotext_title_def split_newline_def split: option.splits)

text \<open>
  Claim C1 asks that \<^verbatim>\<open>pdf_title\<close> returns a string that is not empty and never
  raises, on every path. For the path \<^verbatim>\<open>missing.pdf\<close> of a file that does not exist,
  the first two strategies raise and are caught, the tool prints nothing on its standard
  output, and \<^verbatim>\<open>pdf_title\<close> raises \<^verbatim>\<open>TypeError\<close>. Where the output is text, the
  path \<^verbatim>\<open>papers/\<close> gives the empty string.
\<close>

theorem pdf_title_raises:
  "pdf_title ''missing.pdf''
     \<lparr>docinfo = Inl FileNotFoundError, layout = Inl FileNotFoundError,
      pdftotext_out = Bytes []\<rparr> = Inl TypeError \<and>
   pdf_title ''papers/''
     \<lparr>docinfo = Inl FileNotFoundError, layout = Inl FileNotFoundError,
      pdftotext_out = Str []\<rparr> = Inr []"
  by code_simp

end
